theory Spec2Isabelle
  imports Main "HOL-Library.Sublist"
begin

section \<open>Constants of gui.cpp\<close>

definition GDB_PROMPT :: string where
  "GDB_PROMPT = ''(gdb) ''"

definition GDB_QUIT :: string where
  "GDB_QUIT = ''quit''"

definition GDB_PROGRAM_STATUS :: string where
  "GDB_PROGRAM_STATUS = ''info program''"

definition GDB_STATUS_IDLE :: string where
  "GDB_STATUS_IDLE = ''GDB is idle.''"

definition GDB_STATUS_RUNNING :: string where
  "GDB_STATUS_RUNNING = ''GDB is currently running a program.''"

section \<open>String helpers\<close>

text \<open>
  \<^verbatim>\<open>string_ends_with\<close>: false when the ending is longer than the string, otherwise
  \<^verbatim>\<open>std::equal(ending.rbegin(), ending.rend(), str.rbegin())\<close>, which compares the
  reversed ending with the first \<open>length ending\<close> characters of the reversed string.
\<close>

definition string_ends_with :: "string \<Rightarrow> string \<Rightarrow> bool" where
  "string_ends_with str ending =
     (if length ending > length str then False
      else take (length ending) (rev str) = rev ending)"

text \<open>
  \<^verbatim>\<open>string_contains\<close> is \<^verbatim>\<open>str.find(value) != npos\<close>: the value occurs as a
  contiguous run of characters at some position (the empty value at position 0).
\<close>

fun string_contains :: "string \<Rightarrow> string \<Rightarrow> bool" where
  "string_contains [] v = (v = [])"
| "string_contains (c # cs) v = (prefix v (c # cs) \<or> string_contains cs v)"

section \<open>The child process behind \<^verbatim>\<open>redi::pstream\<close>\<close>

text \<open>
  The pstream library (\<^verbatim>\<open>pstream.hpp\<close>) is not among the sources and the debugger is
  another program, so the stream's operations are parameters. The stream is a record
  of the child's current state \<open>child\<close> together with the child's behaviour: what a line
  written to its input does (\<open>wr\<close>), what the next non-blocking \<^verbatim>\<open>readsome\<close> on each of
  the two output channels yields (\<open>rd_out\<close>, \<open>rd_err\<close>: the bytes now available, possibly
  none, and the state afterwards), and whether each channel's buffer reports the process
  as exited (\<open>ex_out\<close>, \<open>ex_err\<close>). \<open>stdin_log\<close> lists the lines the session has written.
  The child's state moves only when the session writes to it or reads from it, so time
  passes for the child at each read; two exit queries with no read or write between them
  give the same answer. Every theorem below that mentions a stream holds for every such
  child.
\<close>

record 's pstream =
  child :: 's
  wr :: "string \<Rightarrow> 's \<Rightarrow> 's"
  rd_out :: "'s \<Rightarrow> string \<times> 's"
  rd_err :: "'s \<Rightarrow> string \<times> 's"
  ex_out :: "'s \<Rightarrow> bool"
  ex_err :: "'s \<Rightarrow> bool"
  stdin_log :: "string list"

text \<open>\<^verbatim>\<open>process << line << std::endl\<close>\<close>

definition pstream_write :: "string \<Rightarrow> 's pstream \<Rightarrow> 's pstream" where
  "pstream_write line p =
     p\<lparr>child := wr p (line @ [CHR 0x0A]) (child p), stdin_log := stdin_log p @ [line]\<rparr>"

text \<open>\<^verbatim>\<open>process.out().readsome(buf, sizeof(buf))\<close> and the same on \<^verbatim>\<open>err()\<close>:
  the bytes placed in \<^verbatim>\<open>buf\<close> (their count is \<^verbatim>\<open>bufsz\<close>) and the stream afterwards.\<close>

definition out_readsome :: "'s pstream \<Rightarrow> string \<times> 's pstream" where
  "out_readsome p = (case rd_out p (child p) of (bytes, s) \<Rightarrow> (bytes, p\<lparr>child := s\<rparr>))"

definition err_readsome :: "'s pstream \<Rightarrow> string \<times> 's pstream" where
  "err_readsome p = (case rd_err p (child p) of (bytes, s) \<Rightarrow> (bytes, p\<lparr>child := s\<rparr>))"

text \<open>\<^verbatim>\<open>process.out().rdbuf()->exited()\<close> and \<^verbatim>\<open>process.err().rdbuf()->exited()\<close>\<close>

definition out_exited :: "'s pstream \<Rightarrow> bool" where
  "out_exited p = ex_out p (child p)"

definition err_exited :: "'s pstream \<Rightarrow> bool" where
  "err_exited p = ex_err p (child p)"

section \<open>Class \<^verbatim>\<open>GDB\<close>\<close>

text \<open>
  The fields the member functions in gui.cpp read and write. The scratch array
  \<^verbatim>\<open>buf\<close> and its fill count \<^verbatim>\<open>bufsz\<close> only carry one chunk from \<^verbatim>\<open>readsome\<close> to the
  string built from it; the chunk itself stands for them.
\<close>

record 's GDB =
  process :: "'s pstream"
  running_program_flag :: bool
  running_program :: bool

text \<open>The constructor, given the stream that opening \<^verbatim>\<open>gdb\<close> with the arguments produced.\<close>

definition GDB_new :: "'s pstream \<Rightarrow> 's GDB" where
  "GDB_new p = \<lparr>process = p, running_program_flag = False, running_program = False\<rparr>"

definition is_alive :: "'s GDB \<Rightarrow> bool" where
  "is_alive g =
     (let exited = out_exited (process g) \<or> err_exited (process g) in \<not> exited)"

text \<open>\<^verbatim>\<open>execute(const char * line)\<close>: a null pointer is \<open>None\<close>.\<close>

definition execute :: "'s GDB \<Rightarrow> string option \<Rightarrow> 's GDB" where
  "execute g line =
     (if is_alive g then
        (case line of
           None \<Rightarrow> g
         | Some l \<Rightarrow> g\<lparr>process := pstream_write l (process g), running_program_flag := True\<rparr>)
      else g)"

subsection \<open>\<^verbatim>\<open>read_until_prompt\<close>\<close>

text \<open>
  All three loops of \<^verbatim>\<open>read_until_prompt\<close> can spin for ever, so each takes fuel: the
  number of times its body may still run. Testing a loop's condition costs nothing; \<open>None\<close>
  is a loop whose body was about to run with no fuel left. A pass of the outer loop hands
  the fuel it has left to its two inner loops.

  The inner loop on the error channel: while \<^verbatim>\<open>readsome\<close> returns a non-zero count,
  append the chunk to the error stream.
\<close>

fun read_err_loop :: "nat \<Rightarrow> 's GDB \<Rightarrow> string \<Rightarrow> ('s GDB \<times> string) option" where
  "read_err_loop 0 g error_buffer =
     (case err_readsome (process g) of (error, p) \<Rightarrow>
        if length error = 0 then Some (g\<lparr>process := p\<rparr>, error_buffer) else None)"
| "read_err_loop (Suc n) g error_buffer =
     (case err_readsome (process g) of (error, p) \<Rightarrow>
        if length error = 0 then Some (g\<lparr>process := p\<rparr>, error_buffer)
        else read_err_loop n (g\<lparr>process := p\<rparr>) (error_buffer @ error))"

text \<open>
  The body of the inner loop on the output channel, for one chunk: the test is on the
  chunk just read; a chunk that ends with the prompt sets \<^verbatim>\<open>hit_prompt\<close> and, when
  trimming, loses its last \<^verbatim>\<open>strlen(GDB_PROMPT)\<close> characters before it is appended.
\<close>

definition output_chunk :: "bool \<Rightarrow> string \<Rightarrow> string \<Rightarrow> bool \<Rightarrow> string \<times> bool" where
  "output_chunk trim_prompt output output_buffer hit_prompt =
     (if string_ends_with output GDB_PROMPT then
        (if trim_prompt
         then (output_buffer @ take (length output - length GDB_PROMPT) output, True)
         else (output_buffer @ output, True))
      else (output_buffer @ output, hit_prompt))"

fun read_out_loop ::
  "nat \<Rightarrow> bool \<Rightarrow> 's GDB \<Rightarrow> string \<Rightarrow> bool \<Rightarrow> ('s GDB \<times> string \<times> bool) option" where
  "read_out_loop 0 trim_prompt g output_buffer hit_prompt =
     (case out_readsome (process g) of (output, p) \<Rightarrow>
        if length output = 0 then Some (g\<lparr>process := p\<rparr>, output_buffer, hit_prompt)
        else None)"
| "read_out_loop (Suc n) trim_prompt g output_buffer hit_prompt =
     (case out_readsome (process g) of (output, p) \<Rightarrow>
        if length output = 0 then Some (g\<lparr>process := p\<rparr>, output_buffer, hit_prompt)
        else (case output_chunk trim_prompt output output_buffer hit_prompt of
                (ob, hit) \<Rightarrow> read_out_loop n trim_prompt (g\<lparr>process := p\<rparr>) ob hit))"

text \<open>
  The outer loop: \<^verbatim>\<open>while (is_alive() && !hit_prompt)\<close>. The result is the session,
  the two streams and the local \<^verbatim>\<open>hit_prompt\<close> when the loop ends.
\<close>

fun read_until_prompt_loop ::
  "nat \<Rightarrow> bool \<Rightarrow> 's GDB \<Rightarrow> string \<Rightarrow> string \<Rightarrow> bool
     \<Rightarrow> ('s GDB \<times> string \<times> string \<times> bool) option" where
  "read_until_prompt_loop 0 trim_prompt g output_buffer error_buffer hit_prompt =
     (if is_alive g \<and> \<not> hit_prompt then None
      else Some (g, output_buffer, error_buffer, hit_prompt))"
| "read_until_prompt_loop (Suc n) trim_prompt g output_buffer error_buffer hit_prompt =
     (if is_alive g \<and> \<not> hit_prompt then
        (case read_err_loop n g error_buffer of
           None \<Rightarrow> None
         | Some (g1, eb) \<Rightarrow>
             (case read_out_loop n trim_prompt g1 output_buffer hit_prompt of
                None \<Rightarrow> None
              | Some (g2, ob, hit) \<Rightarrow> read_until_prompt_loop n trim_prompt g2 ob eb hit))
      else Some (g, output_buffer, error_buffer, hit_prompt))"

definition read_until_prompt ::
  "nat \<Rightarrow> 's GDB \<Rightarrow> string \<Rightarrow> string \<Rightarrow> bool \<Rightarrow> ('s GDB \<times> string \<times> string \<times> bool) option" where
  "read_until_prompt n g output_buffer error_buffer trim_prompt =
     read_until_prompt_loop n trim_prompt g output_buffer error_buffer False"

subsection \<open>\<^verbatim>\<open>get_execution_output\<close> and \<^verbatim>\<open>is_running_program\<close>\<close>

text \<open>The line is written without asking \<^verbatim>\<open>is_alive\<close>; the error stream is dropped.\<close>

definition get_execution_output :: "nat \<Rightarrow> 's GDB \<Rightarrow> string \<Rightarrow> ('s GDB \<times> string) option" where
  "get_execution_output n g line =
     (case read_until_prompt n (g\<lparr>process := pstream_write line (process g)\<rparr>) [] [] True of
        None \<Rightarrow> None
      | Some (g1, output_buffer, error_buffer, hit) \<Rightarrow> Some (g1, output_buffer))"

definition is_running_program :: "nat \<Rightarrow> 's GDB \<Rightarrow> (bool \<times> 's GDB) option" where
  "is_running_program n g =
     (if running_program_flag g then
        (case get_execution_output n g GDB_PROGRAM_STATUS of
           None \<Rightarrow> None
         | Some (g1, program_status) \<Rightarrow>
             (let g2 = g1\<lparr>running_program := \<not> string_contains program_status ''not being run'',
                          running_program_flag := False\<rparr>
              in Some (running_program g2, g2)))
      else Some (running_program g, g))"

section \<open>The console loop\<close>

text \<open>
  What the console thread touches besides the session: the program's own standard output
  and error streams, the readline history, and the wxWidgets application, namely whether
  \<^verbatim>\<open>GetTopWindow()\<close> returns a window and the events queued to that window's handler.
  The GUI thread runs beside the console thread; its own steps are not part of this model.
\<close>

datatype wxEventType = gdbEVT_STATUS_BAR_UPDATE

datatype wxCommandEvent = CommandEvent wxEventType string

record console =
  cout :: string
  cerr :: string
  history :: "string list"
  top_window :: bool
  event_queue :: "wxCommandEvent list"

definition update_console_and_gui ::
  "nat \<Rightarrow> 's GDB \<Rightarrow> console \<Rightarrow> ('s GDB \<times> console) option" where
  "update_console_and_gui n g c =
     (case read_until_prompt n g (cout c) (cerr c) True of
        None \<Rightarrow> None
      | Some (g1, ob, eb, hit) \<Rightarrow>
          (case is_running_program n g1 of
             None \<Rightarrow> None
           | Some (running, g2) \<Rightarrow>
               (let sbu_event = CommandEvent gdbEVT_STATUS_BAR_UPDATE
                      (if running then GDB_STATUS_RUNNING else GDB_STATUS_IDLE);
                    c1 = c\<lparr>cout := ob, cerr := eb\<rparr>
                in Some (g2, if top_window c1
                             then c1\<lparr>event_queue := event_queue c1 @ [sbu_event]\<rparr>
                             else c1))))"

text \<open>
  The \<^verbatim>\<open>while (gdb.is_alive())\<close> loop of \<^verbatim>\<open>open_console\<close>. The terminal's input is the
  list of lines \<^verbatim>\<open>readline\<close> will return, one per call; at the end of the list it
  returns the null pointer. The result also holds the lines never read. What
  \<^verbatim>\<open>readline\<close> itself echoes to the terminal is not part of \<open>cout\<close>.
\<close>

fun console_loop ::
  "nat \<Rightarrow> string list \<Rightarrow> 's GDB \<Rightarrow> console \<Rightarrow> ('s GDB \<times> console \<times> string list) option" where
  "console_loop n [] g c =
     (if is_alive g then
        (case update_console_and_gui n (execute g (Some GDB_QUIT))
                (c\<lparr>cout := cout c @ GDB_QUIT @ [CHR 0x0A]\<rparr>) of
           None \<Rightarrow> None
         | Some (g1, c1) \<Rightarrow> Some (g1, c1, []))
      else Some (g, c, []))"
| "console_loop n (buf_input # rest) g c =
     (if is_alive g then
        (if length buf_input \<noteq> 0 then
           (case update_console_and_gui n (execute g (Some buf_input))
                   (c\<lparr>history := history c @ [buf_input]\<rparr>) of
              None \<Rightarrow> None
            | Some (g1, c1) \<Rightarrow> console_loop n rest g1 c1)
         else console_loop n rest g c)
      else Some (g, c, buf_input # rest))"

text \<open>\<^verbatim>\<open>open_console\<close> up to the end of its loop, given the stream the constructor opened.\<close>

definition open_console ::
  "nat \<Rightarrow> 's pstream \<Rightarrow> string list \<Rightarrow> console \<Rightarrow> ('s GDB \<times> console \<times> string list) option" where
  "open_console n p input c =
     (case update_console_and_gui n (GDB_new p) c of
        None \<Rightarrow> None
      | Some (g, c1) \<Rightarrow> console_loop n input g c1)"

section \<open>\<^verbatim>\<open>GDBStackPanel::SetStackFrame\<close>\<close>

text \<open>
  The panel's three stack fields and the frame handed to it; the two declarations are
  not among the sources, so the fields are the ones \<^verbatim>\<open>SetStackFrame\<close> and the
  panel's constructor use. A \<^verbatim>\<open>long *\<close> is \<open>None\<close> when null and the array it
  points to otherwise. The grid widget that the function redraws afterwards is
  presentation and is left out.

  The machine is the LP64 one the program is built for: \<^verbatim>\<open>long\<close> and \<^verbatim>\<open>size_t\<close> have
  64 bits and \<^verbatim>\<open>int\<close> has 32. A \<^verbatim>\<open>long\<close> or \<^verbatim>\<open>int\<close> is an integer inside its range,
  and every sum or difference the function computes is wrapped into that range, as the
  two's complement arithmetic of the machine does.
\<close>

definition LONG_MIN :: int where "LONG_MIN = - (2 ^ 63)"
definition LONG_MAX :: int where "LONG_MAX = 2 ^ 63 - 1"
definition INT_MAX :: int where "INT_MAX = 2 ^ 31 - 1"

definition wrap_long :: "int \<Rightarrow> int" where
  "wrap_long x = (x + 2 ^ 63) mod 2 ^ 64 - 2 ^ 63"

definition wrap_int :: "int \<Rightarrow> int" where
  "wrap_int x = (x + 2 ^ 31) mod 2 ^ 32 - 2 ^ 31"

record StackFrame =
  stack_pointer :: int
  frame_pointer :: int
  memory :: "int list option"
  memory_length :: int

record GDBStackPanel =
  stack_global :: "int list option"
  stack_size :: int
  stack_top :: int

text \<open>Reading and writing one array element; \<open>None\<close> is an access outside the array,
  which the C++ leaves undefined.\<close>

definition read_long :: "int list \<Rightarrow> int \<Rightarrow> int option" where
  "read_long a i = (if 0 \<le> i \<and> i < int (length a) then Some (a ! nat i) else None)"

definition write_long :: "int list \<Rightarrow> int \<Rightarrow> int \<Rightarrow> int list option" where
  "write_long a i v = (if 0 \<le> i \<and> i < int (length a) then Some (a[nat i := v]) else None)"

text \<open>
  \<^verbatim>\<open>(long *) malloc(n * sizeof(long))\<close>: the byte count is computed in \<^verbatim>\<open>size_t\<close>.
  Whether the allocator grants a request of so many bytes is a parameter, \<open>malloc_ok\<close>;
  a request it refuses yields the null pointer. A granted array is shown filled with
  zeros: the callers write every cell of it before reading any.
\<close>

definition malloc_longs :: "(nat \<Rightarrow> bool) \<Rightarrow> int \<Rightarrow> int list option" where
  "malloc_longs malloc_ok n =
     (let bytes = (nat (n mod 2 ^ 64) * 8) mod 2 ^ 64
      in if malloc_ok bytes then Some (replicate (bytes div 8) 0) else None)"

text \<open>
  The copy loop \<^verbatim>\<open>for (int index = 0; index < new_stack_size; index++)\<close>, from
  \<open>index\<close> on. \<open>old_stack\<close> is the array \<^verbatim>\<open>stack_global\<close> points to when that is a
  different array from \<^verbatim>\<open>new_stack\<close>, and \<open>None\<close> when the old array is being reused,
  so that reads of \<^verbatim>\<open>stack_global\<close> see the writes already made to \<^verbatim>\<open>new_stack\<close>.
  The counter is an \<^verbatim>\<open>int\<close>: past \<open>INT_MAX\<close> it wraps to a negative index, and the
  write at that index is outside the array.
\<close>

function copy_loop ::
  "int \<Rightarrow> int \<Rightarrow> int \<Rightarrow> int \<Rightarrow> int \<Rightarrow> int list \<Rightarrow> int \<Rightarrow> int \<Rightarrow> int list option
     \<Rightarrow> int list \<Rightarrow> int list option" where
  "copy_loop index new_stack_size new_stack_top stack_frame_top stack_frame_bottom frame_memory
     old_stack_top stack_bottom old_stack new_stack =
     (if index < new_stack_size then
        (let address = wrap_long (new_stack_top + index);
             v = (if address \<ge> stack_frame_top \<and> address < stack_frame_bottom
                  then read_long frame_memory (wrap_long (address - stack_frame_top))
                  else if address \<ge> old_stack_top \<and> address < stack_bottom
                  then read_long (case old_stack of None \<Rightarrow> new_stack | Some a \<Rightarrow> a)
                         (wrap_long (address - old_stack_top))
                  else Some 0)
         in case v of
              None \<Rightarrow> None
            | Some x \<Rightarrow>
                (case write_long new_stack index x of
                   None \<Rightarrow> None
                 | Some a \<Rightarrow>
                     copy_loop (wrap_int (index + 1)) new_stack_size new_stack_top
                       stack_frame_top stack_frame_bottom frame_memory old_stack_top
                       stack_bottom old_stack a))
      else Some new_stack)"
  by pat_completeness auto

termination copy_loop
proof (relation "measure (\<lambda>(index, sz, nt, ft, fb, fm, ot, sb, os, new_stack).
          if index > INT_MAX then length new_stack + 2
          else if 0 \<le> index \<and> index < int (length new_stack)
          then Suc (length new_stack - nat index) else 0)", goal_cases)
  case 1
  show ?case by simp
next
  case (2 index sz nt ft fb fm ot sb os new_stack address v x a)
  from 2 have w: "0 \<le> index" "index < int (length new_stack)" "length a = length new_stack"
    by (auto simp: write_long_def split: if_splits)
  show ?case
  proof (cases "index > INT_MAX")
    case True
    have "(index + 1 + 2 ^ 31) mod 2 ^ 32 < (2 ^ 32 :: int)" by simp
    then have "\<not> wrap_int (index + 1) > INT_MAX"
      by (simp add: wrap_int_def INT_MAX_def)
    with True w show ?thesis by (auto intro: less_Suc_eq_le[THEN iffD2])
  next
    case False
    show ?thesis
    proof (cases "index = INT_MAX")
      case True
      then have "wrap_int (index + 1) = - (2 ^ 31)"
        by (simp add: wrap_int_def INT_MAX_def)
      with True w show ?thesis by (simp add: INT_MAX_def)
    next
      case ne: False
      with False w have "wrap_int (index + 1) = index + 1"
        by (simp add: wrap_int_def INT_MAX_def mod_pos_pos_trivial)
      with False ne w show ?thesis by (auto simp: INT_MAX_def)
    qed
  qed
qed

declare copy_loop.simps [simp del]

text \<open>
  The stack part of \<^verbatim>\<open>SetStackFrame\<close>. The frame pointer itself may be null. When
  \<^verbatim>\<open>malloc\<close> returns null the first pass of the copy loop writes through the null
  pointer, and so does \<^verbatim>\<open>memcpy\<close> of a non-zero byte count. \<open>None\<close> is a run that
  reads or writes outside an array or through a null pointer.
\<close>

definition SetStackFrame ::
  "(nat \<Rightarrow> bool) \<Rightarrow> GDBStackPanel \<Rightarrow> StackFrame option \<Rightarrow> GDBStackPanel option" where
  "SetStackFrame malloc_ok s stack_frame =
     (case (case stack_frame of None \<Rightarrow> None
            | Some f \<Rightarrow> (case memory f of None \<Rightarrow> None | Some m \<Rightarrow> Some (f, m))) of
        None \<Rightarrow>
          (if stack_global s \<noteq> None
           then Some (s\<lparr>stack_global := None, stack_size := 0, stack_top := 0\<rparr>)
           else Some s)
      | Some (f, frame_memory) \<Rightarrow>
          (case stack_global s of
             Some old \<Rightarrow>
               (let stack_frame_top = stack_pointer f;
                    stack_frame_bottom = wrap_long (stack_pointer f + memory_length f);
                    stack_bottom = wrap_long (stack_top s + stack_size s);
                    new_stack_top =
                      (if stack_frame_top < stack_top s then stack_frame_top else stack_top s);
                    new_stack_bottom =
                      (if stack_frame_bottom > stack_bottom then stack_frame_bottom
                       else stack_bottom);
                    new_stack_size = wrap_long (new_stack_bottom - new_stack_top);
                    reuse = (new_stack_top = stack_top s \<and> new_stack_bottom = stack_bottom);
                    new_stack = (if reuse then Some old
                                 else malloc_longs malloc_ok new_stack_size)
                in case new_stack of
                     None \<Rightarrow>
                       (if 0 < new_stack_size then None
                        else Some (s\<lparr>stack_global := None, stack_size := new_stack_size,
                                     stack_top := new_stack_top\<rparr>))
                   | Some a \<Rightarrow>
                       (case copy_loop 0 new_stack_size new_stack_top stack_frame_top
                               stack_frame_bottom frame_memory (stack_top s) stack_bottom
                               (if reuse then None else Some old) a of
                          None \<Rightarrow> None
                        | Some r \<Rightarrow>
                            Some (s\<lparr>stack_global := Some r, stack_size := new_stack_size,
                                    stack_top := new_stack_top\<rparr>)))
           | None \<Rightarrow>
               (case malloc_longs malloc_ok (memory_length f) of
                  None \<Rightarrow>
                    (if (nat (memory_length f mod 2 ^ 64) * 8) mod 2 ^ 64 = 0
                     then Some (s\<lparr>stack_global := None, stack_size := memory_length f,
                                  stack_top := stack_pointer f\<rparr>)
                     else None)
                | Some a \<Rightarrow>
                    (if length a \<le> length frame_memory
                     then Some (s\<lparr>stack_global := Some (take (length a) frame_memory),
                                  stack_size := memory_length f,
                                  stack_top := stack_pointer f\<rparr>)
                     else None))))"

section \<open>Scripted children\<close>

text \<open>
  Concrete children on which the theorems are run. A scripted child hands out the queued
  chunks one per read (an empty read when its queue is empty), both of its channels report
  \<open>gone\<close>, and with \<open>last_gasp\<close> set it exits as its last queued output chunk is read.
\<close>

record scripted =
  out_q :: "string list"
  err_q :: "string list"
  gone :: bool
  last_gasp :: bool

definition scripted_rd_out :: "scripted \<Rightarrow> string \<times> scripted" where
  "scripted_rd_out s =
     (case out_q s of
        [] \<Rightarrow> ([], s)
      | b # bs \<Rightarrow> (b, s\<lparr>out_q := bs, gone := gone s \<or> (last_gasp s \<and> bs = [])\<rparr>))"

definition scripted_rd_err :: "scripted \<Rightarrow> string \<times> scripted" where
  "scripted_rd_err s =
     (case err_q s of
        [] \<Rightarrow> ([], s)
      | b # bs \<Rightarrow> (b, s\<lparr>err_q := bs\<rparr>))"

definition scripted_pstream :: "(string \<Rightarrow> scripted \<Rightarrow> scripted) \<Rightarrow> scripted \<Rightarrow> scripted pstream" where
  "scripted_pstream react s =
     \<lparr>child = s, wr = react, rd_out = scripted_rd_out, rd_err = scripted_rd_err,
      ex_out = gone, ex_err = gone, stdin_log = []\<rparr>"

text \<open>A child that never reacts to its input.\<close>

definition deaf :: "string \<Rightarrow> scripted \<Rightarrow> scripted" where
  "deaf line s = s"

text \<open>A child that behaves like the debugger: it exits on \<^verbatim>\<open>quit\<close>, answers the status
  query with the text for no program, and answers anything else with a bare prompt.\<close>

definition gdb_like :: "string \<Rightarrow> scripted \<Rightarrow> scripted" where
  "gdb_like line s =
     (if gone s then s
      else if line = GDB_QUIT @ [CHR 0x0A] then s\<lparr>gone := True\<rparr>
      else if line = GDB_PROGRAM_STATUS @ [CHR 0x0A]
      then s\<lparr>out_q := out_q s @ [''The program is not being run.'' @ [CHR 0x0A] @ GDB_PROMPT]\<rparr>
      else s\<lparr>out_q := out_q s @ [GDB_PROMPT]\<rparr>)"

text \<open>A child that answers every line, \<^verbatim>\<open>quit\<close> too, with a prompt and lives on.\<close>

definition stubborn :: "string \<Rightarrow> scripted \<Rightarrow> scripted" where
  "stubborn line s = s\<lparr>out_q := out_q s @ [GDB_PROMPT]\<rparr>"

text \<open>A child that is debugging a running program: it answers the status query with
  the text for a running program and anything else with a bare prompt.\<close>

definition debugging :: "string \<Rightarrow> scripted \<Rightarrow> scripted" where
  "debugging line s =
     (if line = GDB_PROGRAM_STATUS @ [CHR 0x0A]
      then s\<lparr>out_q := out_q s @ [''Using the running image of child process 7.'' @ [CHR 0x0A]
                                  @ GDB_PROMPT]\<rparr>
      else s\<lparr>out_q := out_q s @ [GDB_PROMPT]\<rparr>)"

text \<open>A child whose answer to a command, the text \<^verbatim>\<open>abc\<close> and then the prompt, reaches
  the session in two reads that split the prompt.\<close>

definition split_reply :: "string \<Rightarrow> scripted \<Rightarrow> scripted" where
  "split_reply line s = s\<lparr>out_q := out_q s @ [''abc(gd'', ''b) '']\<rparr>"

definition idle_child :: scripted where
  "idle_child = \<lparr>out_q = [], err_q = [], gone = False, last_gasp = False\<rparr>"

text \<open>A fresh session on a debugger-like child with nothing to say yet.\<close>

definition gdb0 :: "scripted GDB" where
  "gdb0 = GDB_new (scripted_pstream gdb_like idle_child)"

definition gdb_debugging :: "scripted GDB" where
  "gdb_debugging = GDB_new (scripted_pstream debugging idle_child)"

text \<open>A session whose child has exited, with output still unread.\<close>

definition dead_gdb :: "scripted GDB" where
  "dead_gdb = GDB_new (scripted_pstream deaf (idle_child\<lparr>out_q := [''bye''], gone := True\<rparr>))"

text \<open>A stream on which only the output channel reports the exit.\<close>

definition one_sided :: "scripted pstream" where
  "one_sided = (scripted_pstream deaf idle_child)\<lparr>ex_out := (\<lambda>s. True)\<rparr>"

text \<open>Sessions whose child has written \<^verbatim>\<open>abc\<close> and the prompt, split over two reads: one
  child lives on, the other exits once the second chunk is read.\<close>

definition straddle_gdb :: "scripted GDB" where
  "straddle_gdb = GDB_new (scripted_pstream deaf (idle_child\<lparr>out_q := [''abc(gd'', ''b) '']\<rparr>))"

definition straddle_exit_gdb :: "scripted GDB" where
  "straddle_exit_gdb =
     GDB_new (scripted_pstream deaf
       (idle_child\<lparr>out_q := [''abc(gd'', ''b) ''], last_gasp := True\<rparr>))"

definition split_gdb :: "scripted GDB" where
  "split_gdb = GDB_new (scripted_pstream split_reply idle_child)"

text \<open>The stubborn child with its first prompt already written.\<close>

definition stubborn_pstream :: "scripted pstream" where
  "stubborn_pstream = scripted_pstream stubborn (idle_child\<lparr>out_q := [GDB_PROMPT]\<rparr>)"

text \<open>A scripted session is quiet when its child is alive with nothing queued; \<open>drained\<close>
  is a session after its child's queues have been read empty.\<close>

definition quiet :: "scripted GDB \<Rightarrow> bool" where
  "quiet g \<longleftrightarrow> rd_out (process g) = scripted_rd_out \<and> rd_err (process g) = scripted_rd_err \<and>
     ex_out (process g) = gone \<and> ex_err (process g) = gone \<and>
     child (process g) = idle_child"

definition drained :: "scripted GDB \<Rightarrow> scripted GDB" where
  "drained g = g\<lparr>process := (process g)\<lparr>child := idle_child\<rparr>\<rparr>"

text \<open>Consoles before and after the GUI thread has created the top window.\<close>

definition console0 :: console where
  "console0 = \<lparr>cout = [], cerr = [], history = [], top_window = False, event_queue = []\<rparr>"


section \<open>Stack images for the examples\<close>

text \<open>The panel as its constructor leaves it, the frames \<open>A = [10, 20)\<close> and
  \<open>B = [15, 25)\<close>, the panels expected after merging \<open>A\<close> and then \<open>B\<close>, and an
  allocator that grants requests of up to 4096 bytes.\<close>

definition GDBStackPanel_new :: GDBStackPanel where
  "GDBStackPanel_new = \<lparr>stack_global = None, stack_size = 0, stack_top = 0\<rparr>"

definition frame_A :: StackFrame where
  "frame_A = \<lparr>stack_pointer = 10, frame_pointer = 20,
     memory = Some [1, 2, 3, 4, 5, 6, 7, 8, 9, 10], memory_length = 10\<rparr>"

definition frame_B :: StackFrame where
  "frame_B = \<lparr>stack_pointer = 15, frame_pointer = 25,
     memory = Some [100, 101, 102, 103, 104, 105, 106, 107, 108, 109], memory_length = 10\<rparr>"

definition panel_A :: GDBStackPanel where
  "panel_A = \<lparr>stack_global = Some [1, 2, 3, 4, 5, 6, 7, 8, 9, 10], stack_size = 10,
     stack_top = 10\<rparr>"

definition panel_AB :: GDBStackPanel where
  "panel_AB = \<lparr>stack_global =
       Some [1, 2, 3, 4, 5, 100, 101, 102, 103, 104, 105, 106, 107, 108, 109],
     stack_size = 15, stack_top = 10\<rparr>"

definition small_heap :: "nat \<Rightarrow> bool" where
  "small_heap bytes \<longleftrightarrow> bytes \<le> 4096"

text \<open>An image and a frame at the top of the address range: the frame's bottom,
  \<open>LONG_MAX + 3\<close>, does not fit a \<^verbatim>\<open>long\<close>.\<close>

definition panel_high :: GDBStackPanel where
  "panel_high = \<lparr>stack_global = Some [1, 2], stack_size = 2, stack_top = LONG_MAX - 3\<rparr>"

definition frame_high :: StackFrame where
  "frame_high = \<lparr>stack_pointer = LONG_MAX - 1, frame_pointer = LONG_MAX,
     memory = Some [7, 8, 9, 10], memory_length = 4\<rparr>"

text \<open>The value the union of a frame and an old image holds at an address: the frame's
  inside the frame, else the old image's inside the old image, else zero.\<close>

definition union_value ::
  "int \<Rightarrow> int \<Rightarrow> int list \<Rightarrow> int \<Rightarrow> int \<Rightarrow> int list \<Rightarrow> int \<Rightarrow> int" where
  "union_value frame_top frame_bottom frame_memory old_top old_bottom old address =
     (if frame_top \<le> address \<and> address < frame_bottom
      then frame_memory ! nat (address - frame_top)
      else if old_top \<le> address \<and> address < old_bottom
      then old ! nat (address - old_top)
      else 0)"

section \<open>Cycles of the console loop\<close>



section \<open>Properties of the session\<close>

subsection \<open>Helper facts\<close>

lemmas run_defs = GDB_new_def scripted_pstream_def idle_child_def
  is_alive_def out_exited_def err_exited_def execute_def pstream_write_def
  out_readsome_def err_readsome_def scripted_rd_out_def scripted_rd_err_def
  output_chunk_def string_ends_with_def GDB_PROMPT_def

lemmas eval_defs = run_defs
  is_running_program_def get_execution_output_def read_until_prompt_def
  GDB_QUIT_def GDB_PROGRAM_STATUS_def Let_def

lemmas all_defs = eval_defs update_console_and_gui_def open_console_def
  GDB_STATUS_IDLE_def GDB_STATUS_RUNNING_def

lemma string_ends_with_suffix: "string_ends_with str ending = suffix ending str"
proof (cases "length ending > length str")
  case True
  then have "\<not> suffix ending str"
    using suffix_length_le by fastforce
  with True show ?thesis by (simp add: string_ends_with_def)
next
  case False
  have "take (length ending) (rev str) = rev ending \<longleftrightarrow> prefix (rev ending) (rev str)"
    using False by (metis length_rev linorder_not_less prefix_def append_eq_conv_conj
        append_take_drop_id)
  then show ?thesis using False by (simp add: string_ends_with_def suffix_to_prefix)
qed

text \<open>The drain loops leave the two flags, the log of written lines and the child's
  behaviour as they were: they only advance the child's state.\<close>

lemma read_err_loop_keeps:
  "read_err_loop n g eb = Some (g', eb') \<Longrightarrow>
     running_program_flag g' = running_program_flag g \<and> running_program g' = running_program g \<and>
     stdin_log (process g') = stdin_log (process g) \<and> wr (process g') = wr (process g) \<and>
     ex_out (process g') = ex_out (process g) \<and> ex_err (process g') = ex_err (process g)"
proof (induction n arbitrary: g eb)
  case 0
  then show ?case
    by (auto simp: err_readsome_def split: prod.splits if_splits)
next
  case (Suc n)
  show ?case
  proof (cases "rd_err (process g) (child (process g))")
    case (Pair bytes s)
    show ?thesis
    proof (cases "bytes = []")
      case True
      with Suc.prems Pair show ?thesis by (auto simp: err_readsome_def)
    next
      case False
      with Suc.prems Pair
      have "read_err_loop n (g\<lparr>process := (process g)\<lparr>child := s\<rparr>\<rparr>) (eb @ bytes) = Some (g', eb')"
        by (simp add: err_readsome_def)
      from Suc.IH[OF this] show ?thesis by simp
    qed
  qed
qed

lemma read_out_loop_keeps:
  "read_out_loop n t g ob h = Some (g', ob', h') \<Longrightarrow>
     running_program_flag g' = running_program_flag g \<and> running_program g' = running_program g \<and>
     stdin_log (process g') = stdin_log (process g) \<and> wr (process g') = wr (process g) \<and>
     ex_out (process g') = ex_out (process g) \<and> ex_err (process g') = ex_err (process g)"
proof (induction n arbitrary: g ob h)
  case 0
  then show ?case
    by (auto simp: out_readsome_def split: prod.splits if_splits)
next
  case (Suc n)
  show ?case
  proof (cases "rd_out (process g) (child (process g))")
    case (Pair bytes s)
    show ?thesis
    proof (cases "bytes = []")
      case True
      with Suc.prems Pair show ?thesis by (auto simp: out_readsome_def)
    next
      case False
      obtain ob1 h1 where oc: "output_chunk t bytes ob h = (ob1, h1)" by force
      with False Suc.prems Pair
      have "read_out_loop n t (g\<lparr>process := (process g)\<lparr>child := s\<rparr>\<rparr>) ob1 h1 = Some (g', ob', h')"
        by (simp add: out_readsome_def)
      from Suc.IH[OF this] show ?thesis by simp
    qed
  qed
qed

lemma read_until_prompt_loop_keeps:
  "read_until_prompt_loop n t g ob eb h = Some (g', ob', eb', h') \<Longrightarrow>
     running_program_flag g' = running_program_flag g \<and> running_program g' = running_program g \<and>
     stdin_log (process g') = stdin_log (process g) \<and> wr (process g') = wr (process g) \<and>
     ex_out (process g') = ex_out (process g) \<and> ex_err (process g') = ex_err (process g)"
proof (induction n arbitrary: g ob eb h)
  case 0
  then show ?case by (auto split: if_splits)
next
  case (Suc n)
  show ?case
  proof (cases "is_alive g \<and> \<not> h")
    case False
    with Suc.prems show ?thesis by auto
  next
    case True
    with Suc.prems obtain g1 eb1 g2 ob2 h2 where
      e: "read_err_loop n g eb = Some (g1, eb1)" and
      o: "read_out_loop n t g1 ob h = Some (g2, ob2, h2)" and
      r: "read_until_prompt_loop n t g2 ob2 eb1 h2 = Some (g', ob', eb', h')"
      by (auto split: option.splits)
    from read_err_loop_keeps[OF e] read_out_loop_keeps[OF o] Suc.IH[OF r]
    show ?thesis by simp
  qed
qed

lemma read_until_prompt_loop_exit:
  "read_until_prompt_loop n t g ob eb h = Some (g', ob', eb', h') \<Longrightarrow> h' \<or> \<not> is_alive g'"
proof (induction n arbitrary: g ob eb h)
  case 0
  then show ?case by (auto split: if_splits)
next
  case (Suc n)
  show ?case
  proof (cases "is_alive g \<and> \<not> h")
    case False
    with Suc.prems show ?thesis by auto
  next
    case True
    with Suc.prems obtain g1 eb1 g2 ob2 h2 where
      r: "read_until_prompt_loop n t g2 ob2 eb1 h2 = Some (g', ob', eb', h')"
      by (auto split: option.splits)
    from Suc.IH[OF r] show ?thesis .
  qed
qed

lemma read_until_prompt_loop_dead:
  "\<not> is_alive g \<Longrightarrow> read_until_prompt_loop n t g ob eb h = Some (g, ob, eb, h)"
  by (cases n) simp_all

lemma is_alive_process: "process g = process h \<Longrightarrow> is_alive g = is_alive h"
  by (simp add: is_alive_def)

lemma quiet_never_returns:
  "quiet g \<Longrightarrow> read_until_prompt_loop n t g ob eb False = None"
proof (induction n)
  case 0
  then show ?case
    by (simp add: quiet_def is_alive_def out_exited_def err_exited_def idle_child_def)
next
  case (Suc n)
  from Suc.prems have a: "is_alive g"
    by (simp add: quiet_def is_alive_def out_exited_def err_exited_def idle_child_def)
  from Suc.prems have "err_readsome (process g) = ([], process g)"
    by (simp add: quiet_def err_readsome_def scripted_rd_err_def idle_child_def)
  then have e: "read_err_loop n g eb = Some (g, eb)"
    by (cases n) simp_all
  from Suc.prems have "out_readsome (process g) = ([], process g)"
    by (simp add: quiet_def out_readsome_def scripted_rd_out_def idle_child_def)
  then have o: "read_out_loop n t g ob False = Some (g, ob, False)"
    by (cases n) simp_all
  from a e o Suc show ?case by simp
qed

lemma two_chunks_never:
  assumes q: "quiet (drained g)"
    and c: "child (process g) = idle_child\<lparr>out_q := [''abc(gd'', ''b) '']\<rparr>"
  shows "read_until_prompt_loop n t g [] [] False = None"
proof -
  from q have f: "rd_out (process g) = scripted_rd_out" "rd_err (process g) = scripted_rd_err"
    "ex_out (process g) = gone" "ex_err (process g) = gone"
    by (simp_all add: quiet_def drained_def)
  from f c have a: "is_alive g"
    by (simp add: is_alive_def out_exited_def err_exited_def idle_child_def)
  from f c have "err_readsome (process g) = ([], process g)"
    by (simp add: err_readsome_def scripted_rd_err_def idle_child_def)
  then have e: "read_err_loop k g [] = Some (g, [])" for k
    by (cases k) simp_all
  consider "n = 0" | "n = Suc 0" | "n = Suc (Suc 0)" | m where "n = Suc (Suc (Suc m))"
    by (metis not0_implies_Suc)
  then show ?thesis
  proof cases
    case 1
    with a show ?thesis by simp
  next
    case 2
    from f c have "read_out_loop 0 t g [] False = None"
      by (simp add: out_readsome_def scripted_rd_out_def idle_child_def)
    with 2 a e show ?thesis by simp
  next
    case 3
    from f c have "read_out_loop (Suc 0) t g [] False = None"
      by (simp add: out_readsome_def scripted_rd_out_def output_chunk_def string_ends_with_def
          GDB_PROMPT_def idle_child_def)
    with 3 a e show ?thesis by simp
  next
    case 4
    from f c have o: "read_out_loop (Suc (Suc m)) t g [] False =
        Some (drained g, ''abc(gdb) '', False)"
      by (cases m)
        (simp_all add: out_readsome_def scripted_rd_out_def output_chunk_def
          string_ends_with_def GDB_PROMPT_def drained_def idle_child_def)
    have "read_until_prompt_loop (Suc (Suc m)) t (drained g) ''abc(gdb) '' [] False = None"
      using q by (rule quiet_never_returns)
    with 4 a e o show ?thesis by (simp del: read_out_loop.simps read_err_loop.simps)
  qed
qed

lemma wrap_int_id: "- (2 ^ 31) \<le> x \<Longrightarrow> x < 2 ^ 31 \<Longrightarrow> wrap_int x = x"
  by (simp add: wrap_int_def mod_pos_pos_trivial)

lemma wrap_long_id: "- (2 ^ 63) \<le> x \<Longrightarrow> x < 2 ^ 63 \<Longrightarrow> wrap_long x = x"
  by (simp add: wrap_long_def mod_pos_pos_trivial)

lemma copy_loop_result:
  assumes lm: "int (length mem) = fbot - ftop"
    and lo: "int (length old) = sbot - stop"
    and small: "int (length new) \<le> INT_MAX"
    and rng: "LONG_MIN \<le> ntop" "ntop + int (length new) \<le> LONG_MAX + 1"
    and tops: "ntop \<le> ftop" "ntop \<le> stop"
    and src: "case src of
                Some a \<Rightarrow> a = old
              | None \<Rightarrow> ntop = stop \<and> length new = length old \<and>
                  (\<forall>j. i \<le> j \<and> j < length new \<longrightarrow> new ! j = old ! j)"
    and bound: "i \<le> length new"
  shows "\<exists>r. copy_loop (int i) (int (length new)) ntop ftop fbot mem stop sbot src new = Some r \<and>
           length r = length new \<and>
           (\<forall>j<length new. r ! j =
              (if i \<le> j then union_value ftop fbot mem stop sbot old (ntop + int j)
               else new ! j))"
  using small rng src bound
proof (induction "length new - i" arbitrary: i new)
  case 0
  then have "i = length new" by simp
  then show ?case by (simp add: copy_loop.simps)
next
  case (Suc k)
  let ?a = "ntop + int i"
  let ?x = "union_value ftop fbot mem stop sbot old ?a"
  from Suc.hyps(2) have i: "i < length new" by simp
  with Suc.prems have ir: "int i < 2 ^ 31 - 1" by (simp add: INT_MAX_def)
  from i Suc.prems have wa: "wrap_long ?a = ?a"
    by (intro wrap_long_id) (simp_all add: LONG_MIN_def LONG_MAX_def)
  have wf: "wrap_long (?a - ftop) = ?a - ftop" if "ftop \<le> ?a"
    using that tops ir by (intro wrap_long_id) simp_all
  have ws: "wrap_long (?a - stop) = ?a - stop" if "stop \<le> ?a"
    using that tops ir by (intro wrap_long_id) simp_all
  from ir have wi: "wrap_int (int i + 1) = int (Suc i)"
    by (simp add: wrap_int_id)
  have rd_old: "read_long (case src of None \<Rightarrow> new | Some a \<Rightarrow> a) (?a - stop) =
      Some (old ! nat (?a - stop))" if "stop \<le> ?a" "?a < sbot"
  proof (cases src)
    case None
    with Suc.prems(4) have "ntop = stop" "length new = length old"
      "\<forall>j. i \<le> j \<and> j < length new \<longrightarrow> new ! j = old ! j" by simp_all
    with i None show ?thesis by (simp add: read_long_def)
  next
    case (Some a)
    with Suc.prems(4) have "a = old" by simp
    with Some that lo show ?thesis by (simp add: read_long_def)
  qed
  have v: "(if ?a \<ge> ftop \<and> ?a < fbot then read_long mem (wrap_long (?a - ftop))
            else if ?a \<ge> stop \<and> ?a < sbot
            then read_long (case src of None \<Rightarrow> new | Some a \<Rightarrow> a) (wrap_long (?a - stop))
            else Some 0) = Some ?x"
    using lm rd_old wf ws by (simp add: union_value_def read_long_def)
  from i have w: "write_long new (int i) ?x = Some (new[i := ?x])"
    by (simp add: write_long_def)
  have k: "k = length (new[i := ?x]) - Suc i" using Suc.hyps(2) by simp
  have small': "int (length (new[i := ?x])) \<le> INT_MAX" using Suc.prems(1) by simp
  have rng': "LONG_MIN \<le> ntop" "ntop + int (length (new[i := ?x])) \<le> LONG_MAX + 1"
    using Suc.prems(2,3) by simp_all
  have src': "case src of
                Some a \<Rightarrow> a = old
              | None \<Rightarrow> ntop = stop \<and> length (new[i := ?x]) = length old \<and>
                  (\<forall>j. Suc i \<le> j \<and> j < length (new[i := ?x]) \<longrightarrow> new[i := ?x] ! j = old ! j)"
    using Suc.prems(4) by (auto split: option.splits)
  from i have b': "Suc i \<le> length (new[i := ?x])" by simp
  from Suc.hyps(1)[OF k small' rng' src' b'] obtain r where
    r: "copy_loop (int (Suc i)) (int (length new)) ntop ftop fbot mem stop sbot src (new[i := ?x])
          = Some r"
    and lr: "length r = length new"
    and nr: "\<forall>j<length new. r ! j =
              (if Suc i \<le> j then union_value ftop fbot mem stop sbot old (ntop + int j)
               else new[i := ?x] ! j)"
    by auto
  have c: "copy_loop (int i) (int (length new)) ntop ftop fbot mem stop sbot src new = Some r"
    by (subst copy_loop.simps) (simp add: i wa v w wi r Let_def del: of_nat_Suc)
  have "r ! j = (if i \<le> j then union_value ftop fbot mem stop sbot old (ntop + int j)
                 else new ! j)"
    if "j < length new" for j
  proof (cases "j = i")
    case True
    with nr that show ?thesis by simp
  next
    case False
    with nr that show ?thesis by auto
  qed
  with c lr show ?case by blast
qed

lemma merge_A_B:
  "SetStackFrame small_heap GDBStackPanel_new (Some frame_A) = Some panel_A \<and>
   SetStackFrame small_heap panel_A (Some frame_B) = Some panel_AB"
  by (simp add: SetStackFrame_def GDBStackPanel_new_def frame_A_def frame_B_def panel_A_def
      panel_AB_def Let_def read_long_def write_long_def malloc_longs_def small_heap_def
      wrap_long_def wrap_int_def copy_loop.simps)
    (simp add: eval_nat_numeral)

lemma overflowing_frame_bottom_wraps:
  "SetStackFrame small_heap panel_high (Some frame_high) = Some panel_high"
  by (simp add: SetStackFrame_def panel_high_def frame_high_def Let_def read_long_def
      write_long_def malloc_longs_def small_heap_def wrap_long_def wrap_int_def LONG_MAX_def
      copy_loop.simps)

lemma status_query_result:
  assumes f: "running_program_flag g" and r: "is_running_program n g = Some (b, g')"
  shows "\<exists>g1 ob eb hit.
           read_until_prompt n (g\<lparr>process := pstream_write GDB_PROGRAM_STATUS (process g)\<rparr>)
             [] [] True = Some (g1, ob, eb, hit) \<and>
           b = (\<not> string_contains ob ''not being run'') \<and>
           g' = g1\<lparr>running_program := b, running_program_flag := False\<rparr>"
proof -
  from f r obtain g1 ob eb hit where
    d: "read_until_prompt n (g\<lparr>process := pstream_write GDB_PROGRAM_STATUS (process g)\<rparr>)
             [] [] True = Some (g1, ob, eb, hit)"
    by (auto simp: is_running_program_def get_execution_output_def split: option.splits)
  with f r have "b = (\<not> string_contains ob ''not being run'')"
    and "g' = g1\<lparr>running_program := b, running_program_flag := False\<rparr>"
    by (auto simp: is_running_program_def get_execution_output_def Let_def)
  with d show ?thesis by blast
qed

lemma status_query_log:
  assumes f: "running_program_flag g" and r: "is_running_program n g = Some (b, g')"
  shows "stdin_log (process g') = stdin_log (process g) @ [GDB_PROGRAM_STATUS] \<and>
         wr (process g') = wr (process g) \<and> ex_out (process g') = ex_out (process g) \<and>
         ex_err (process g') = ex_err (process g)"
proof -
  from status_query_result[OF f r] obtain g1 ob eb hit where
    d: "read_until_prompt_loop n True
          (g\<lparr>process := pstream_write GDB_PROGRAM_STATUS (process g)\<rparr>) [] [] False =
        Some (g1, ob, eb, hit)"
    and g': "g' = g1\<lparr>running_program := b, running_program_flag := False\<rparr>"
    by (auto simp: read_until_prompt_def)
  from read_until_prompt_loop_keeps[OF d] g' show ?thesis
    by (simp add: pstream_write_def)
qed

lemma execute_alive:
  assumes "is_alive g"
  shows "running_program_flag (execute g (Some l)) \<and>
         stdin_log (process (execute g (Some l))) = stdin_log (process g) @ [l] \<and>
         wr (process (execute g (Some l))) = wr (process g) \<and>
         ex_out (process (execute g (Some l))) = ex_out (process g) \<and>
         ex_err (process (execute g (Some l))) = ex_err (process g)"
  using assms by (simp add: execute_def pstream_write_def)

lemma update_parts:
  assumes "update_console_and_gui n g c = Some (g', c')"
  shows "\<exists>g1 ob eb hit running.
           read_until_prompt n g (cout c) (cerr c) True = Some (g1, ob, eb, hit) \<and>
           is_running_program n g1 = Some (running, g') \<and>
           c' = (if top_window c
                 then c\<lparr>cout := ob, cerr := eb,
                        event_queue := event_queue c @ [CommandEvent gdbEVT_STATUS_BAR_UPDATE
                          (if running then GDB_STATUS_RUNNING else GDB_STATUS_IDLE)]\<rparr>
                 else c\<lparr>cout := ob, cerr := eb\<rparr>)"
proof -
  from assms obtain g1 ob eb hit where
    r: "read_until_prompt n g (cout c) (cerr c) True = Some (g1, ob, eb, hit)"
    by (auto simp: update_console_and_gui_def split: option.splits)
  with assms obtain running g2 where
    p: "is_running_program n g1 = Some (running, g2)"
    by (auto simp: update_console_and_gui_def split: option.splits)
  from assms r p have "g' = g2" and
    "c' = (if top_window c
           then c\<lparr>cout := ob, cerr := eb,
                  event_queue := event_queue c @ [CommandEvent gdbEVT_STATUS_BAR_UPDATE
                     (if running then GDB_STATUS_RUNNING else GDB_STATUS_IDLE)]\<rparr>
           else c\<lparr>cout := ob, cerr := eb\<rparr>)"
    by (simp_all add: update_console_and_gui_def Let_def split: if_splits)
  with r p show ?thesis by blast
qed

text \<open>One cycle: a command executed on a live session, then drained and published.\<close>

lemma cycle_effect:
  assumes a: "is_alive g"
    and u: "update_console_and_gui n (execute g (Some l)) c = Some (g', c')"
  shows "stdin_log (process g') = stdin_log (process g) @ [l, GDB_PROGRAM_STATUS] \<and>
         history c' = history c \<and> top_window c' = top_window c \<and>
         (\<exists>running. event_queue c' =
            (if top_window c
             then event_queue c @ [CommandEvent gdbEVT_STATUS_BAR_UPDATE
                    (if running then GDB_STATUS_RUNNING else GDB_STATUS_IDLE)]
             else event_queue c))"
proof -
  from update_parts[OF u] obtain g1 ob eb hit running where
    d: "read_until_prompt_loop n True (execute g (Some l)) (cout c) (cerr c) False =
          Some (g1, ob, eb, hit)"
    and p: "is_running_program n g1 = Some (running, g')"
    and c': "c' = (if top_window c
                 then c\<lparr>cout := ob, cerr := eb,
                        event_queue := event_queue c @ [CommandEvent gdbEVT_STATUS_BAR_UPDATE
                          (if running then GDB_STATUS_RUNNING else GDB_STATUS_IDLE)]\<rparr>
                 else c\<lparr>cout := ob, cerr := eb\<rparr>)"
    by (auto simp: read_until_prompt_def)
  from read_until_prompt_loop_keeps[OF d] execute_alive[OF a, of l]
  have k: "running_program_flag g1" "stdin_log (process g1) = stdin_log (process g) @ [l]"
    by simp_all
  from status_query_log[OF k(1) p] k(2)
  have "stdin_log (process g') = stdin_log (process g) @ [l, GDB_PROGRAM_STATUS]" by simp
  moreover from c' have "history c' = history c" "top_window c' = top_window c"
    by (simp_all split: if_splits)
  moreover from c' have "event_queue c' =
            (if top_window c
             then event_queue c @ [CommandEvent gdbEVT_STATUS_BAR_UPDATE
                    (if running then GDB_STATUS_RUNNING else GDB_STATUS_IDLE)]
             else event_queue c)"
    by (simp split: if_splits)
  ultimately show ?thesis by blast
qed



lemma gdb_debugging_status_after_run:
  "\<exists>g'. is_running_program (Suc (Suc (Suc 0))) (execute gdb_debugging (Some ''run'')) =
      Some (True, g')"
  by (simp add: eval_defs gdb_debugging_def debugging_def)


lemma gdb0_status_after_run:
  "\<exists>g'. is_running_program (Suc (Suc (Suc 0))) (execute gdb0 (Some ''run'')) = Some (False, g')"
  by (simp add: eval_defs gdb0_def gdb_like_def)

text \<open>When the prompt does arrive at the end of one chunk, and nothing more is
  available after it, the drain returns with the flag set and the prompt trimmed or kept
  as asked.\<close>

lemma prompt_at_chunk_end_detected:
  assumes a: "is_alive g"
    and e: "err_readsome (process g) = ([], p1)"
    and o: "out_readsome p1 = (w @ GDB_PROMPT, p2)"
    and z: "out_readsome p2 = ([], p3)"
  shows "read_until_prompt (Suc (Suc n)) g ob eb trim =
           Some (g\<lparr>process := p3\<rparr>, ob @ (if trim then w else w @ GDB_PROMPT), eb, True)"
proof -
  have s: "string_ends_with (w @ GDB_PROMPT) GDB_PROMPT"
    by (simp add: string_ends_with_suffix suffix_def)
  from e have 1: "read_err_loop (Suc n) g eb = Some (g\<lparr>process := p1\<rparr>, eb)" by simp
  have ne: "w @ GDB_PROMPT \<noteq> []" by (simp add: GDB_PROMPT_def)
  from z have 3: "read_out_loop k t (g\<lparr>process := p2\<rparr>) b True =
      Some (g\<lparr>process := p3\<rparr>, b, True)" for k t b
    by (cases k) simp_all
  from o s ne 3 have 2: "read_out_loop (Suc n) trim (g\<lparr>process := p1\<rparr>) ob False =
      Some (g\<lparr>process := p3\<rparr>, ob @ (if trim then w else w @ GDB_PROMPT), True)"
    by (simp add: output_chunk_def)
  have 4: "read_until_prompt_loop (Suc n) trim (g\<lparr>process := p3\<rparr>) b eb True =
      Some (g\<lparr>process := p3\<rparr>, b, eb, True)" for b
    by simp
  from a 1 2 4 show ?thesis
    by (simp add: read_until_prompt_def del: read_err_loop.simps read_out_loop.simps)
qed

section \<open>The claims\<close>

text \<open>
  C1 (the code departs from it): a drain after a command should hand back exactly what
  the child wrote before its prompt. Here the child answers \<^verbatim>\<open>print x\<close> with
  \<^verbatim>\<open>abc\<close> and the prompt, and the bytes arrive as the two reads \<^verbatim>\<open>abc(gd\<close> and
  \<^verbatim>\<open>b) \<close>. The prompt is never seen, and the drain returns for no amount of fuel.
\<close>

theorem split_prompt_reply_hangs:
  "is_alive split_gdb \<and>
   stdin_log (process (execute split_gdb (Some ''print x''))) = [''print x''] \<and>
   out_q (child (process (execute split_gdb (Some ''print x'')))) = [''abc(gd'', ''b) ''] \<and>
   concat [''abc(gd'', ''b) ''] = ''abc'' @ GDB_PROMPT \<and>
   (\<forall>n. read_until_prompt n (execute split_gdb (Some ''print x'')) [] [] True = None)"
proof (intro conjI allI)
  show "is_alive split_gdb" by (simp add: split_gdb_def run_defs)
  show "stdin_log (process (execute split_gdb (Some ''print x''))) = [''print x'']"
    by (simp add: split_gdb_def run_defs)
  show "out_q (child (process (execute split_gdb (Some ''print x'')))) = [''abc(gd'', ''b) '']"
    by (simp add: split_gdb_def run_defs split_reply_def)
  show "concat [''abc(gd'', ''b) ''] = ''abc'' @ GDB_PROMPT"
    by (simp add: GDB_PROMPT_def)
  show "read_until_prompt n (execute split_gdb (Some ''print x'')) [] [] True = None" for n
    unfolding read_until_prompt_def
    by (rule two_chunks_never)
      (simp_all add: split_gdb_def run_defs split_reply_def quiet_def drained_def)
qed

text \<open>
  C2: the prompt test looks at each chunk alone. The two chunks \<^verbatim>\<open>abc(gd\<close> and
  \<^verbatim>\<open>b) \<close> together end with the prompt and neither does by itself; while the child
  lives the drain never returns, and when the child exits after the second chunk the
  drain ends on the exit, with the flag unset and the prompt left in the output even
  when trimming was asked for.
\<close>

theorem prompt_straddling_reads_not_detected:
  "string_ends_with (''abc(gd'' @ ''b) '') GDB_PROMPT \<and>
   \<not> string_ends_with ''abc(gd'' GDB_PROMPT \<and> \<not> string_ends_with ''b) '' GDB_PROMPT \<and>
   (\<forall>n trim. read_until_prompt n straddle_gdb [] [] trim = None) \<and>
   (\<forall>n trim. \<exists>g'. read_until_prompt (Suc (Suc (Suc n))) straddle_exit_gdb [] [] trim =
       Some (g', ''abc(gdb) '', [], False))"
proof (intro conjI allI)
  show "string_ends_with (''abc(gd'' @ ''b) '') GDB_PROMPT"
    by (simp add: string_ends_with_def GDB_PROMPT_def)
  show "\<not> string_ends_with ''abc(gd'' GDB_PROMPT"
    by (simp add: string_ends_with_def GDB_PROMPT_def)
  show "\<not> string_ends_with ''b) '' GDB_PROMPT"
    by (simp add: string_ends_with_def GDB_PROMPT_def)
  show "read_until_prompt n straddle_gdb [] [] trim = None" for n trim
    unfolding read_until_prompt_def
    by (rule two_chunks_never)
      (simp_all add: straddle_gdb_def GDB_new_def scripted_pstream_def quiet_def drained_def
        idle_child_def)
  show "\<exists>g'. read_until_prompt (Suc (Suc (Suc n))) straddle_exit_gdb [] [] trim =
       Some (g', ''abc(gdb) '', [], False)" for n trim
    by (cases n) (simp_all add: straddle_exit_gdb_def read_until_prompt_def run_defs)
qed

text \<open>
  C3, as the code has it: the session counts as alive only while neither channel reports
  the exit; one channel reporting it is enough for \<^verbatim>\<open>is_alive\<close> to return false.
\<close>

theorem is_alive_neither_exited:
  "is_alive g = (\<not> out_exited (process g) \<and> \<not> err_exited (process g))"
  by (simp add: is_alive_def)

text \<open>C3 as the claim words it fails: with only the output channel reporting the exit,
  \<^verbatim>\<open>is_alive\<close> is already false.\<close>

theorem one_channel_exited_not_alive:
  "out_exited one_sided \<and> \<not> err_exited one_sided \<and> \<not> is_alive (GDB_new one_sided)"
  by (simp add: one_sided_def scripted_pstream_def out_exited_def err_exited_def is_alive_def
      GDB_new_def idle_child_def)

text \<open>
  C4: merging a frame into an existing image stores the union range, from the smaller
  top to the larger bottom; at every address of the union the new image holds the
  frame's value inside the frame's range, the old image's value inside the old range but
  outside the frame's, and zero elsewhere. This is for images and frames the function
  can hold and address: both arrays are as long as their length fields say, both ranges
  lie within the \<^verbatim>\<open>long\<close> range, the union has at most \<open>INT_MAX\<close> cells (the loop
  counter is an \<^verbatim>\<open>int\<close>), and the allocator grants the new array when one is needed.
\<close>

theorem stack_frame_union:
  assumes sg: "stack_global s = Some old" and so: "int (length old) = stack_size s"
    and fm: "memory f = Some mem" and fl: "int (length mem) = memory_length f"
    and lows: "LONG_MIN \<le> stack_pointer f" "LONG_MIN \<le> stack_top s"
    and highs: "stack_pointer f + memory_length f \<le> LONG_MAX"
      "stack_top s + stack_size s \<le> LONG_MAX"
    and small: "max (stack_pointer f + memory_length f) (stack_top s + stack_size s)
                 - min (stack_pointer f) (stack_top s) \<le> INT_MAX"
    and alloc: "min (stack_pointer f) (stack_top s) = stack_top s \<and>
                max (stack_pointer f + memory_length f) (stack_top s + stack_size s) =
                  stack_top s + stack_size s \<or>
                malloc_ok (nat (max (stack_pointer f + memory_length f)
                                  (stack_top s + stack_size s)
                                - min (stack_pointer f) (stack_top s)) * 8)"
  shows "\<exists>new.
     SetStackFrame malloc_ok s (Some f) =
       Some (s\<lparr>stack_global := Some new,
               stack_size := max (stack_pointer f + memory_length f) (stack_top s + stack_size s)
                 - min (stack_pointer f) (stack_top s),
               stack_top := min (stack_pointer f) (stack_top s)\<rparr>) \<and>
     int (length new) = max (stack_pointer f + memory_length f) (stack_top s + stack_size s)
                 - min (stack_pointer f) (stack_top s) \<and>
     (\<forall>address. min (stack_pointer f) (stack_top s) \<le> address \<and>
         address < max (stack_pointer f + memory_length f) (stack_top s + stack_size s) \<longrightarrow>
         new ! nat (address - min (stack_pointer f) (stack_top s)) =
           (if stack_pointer f \<le> address \<and> address < stack_pointer f + memory_length f
            then mem ! nat (address - stack_pointer f)
            else if stack_top s \<le> address \<and> address < stack_top s + stack_size s
            then old ! nat (address - stack_top s)
            else 0))"
proof -
  let ?ftop = "stack_pointer f" and ?fbot = "stack_pointer f + memory_length f"
  let ?stop = "stack_top s" and ?sbot = "stack_top s + stack_size s"
  let ?ntop = "min ?ftop ?stop" and ?nbot = "max ?fbot ?sbot"
  let ?reuse = "?ntop = ?stop \<and> ?nbot = ?sbot"
  let ?src = "if ?reuse then None else Some old"
  let ?init = "if ?reuse then old else replicate (nat (?nbot - ?ntop)) 0"
  have mn: "(if ?ftop < ?stop then ?ftop else ?stop) = ?ntop"
    and mx: "(if ?fbot > ?sbot then ?fbot else ?sbot) = ?nbot"
    by simp_all
  from so fl have size: "0 \<le> ?nbot - ?ntop" by linarith
  from so have len: "length ?init = nat (?nbot - ?ntop)" by auto
  from so fl lows highs have wf: "wrap_long ?fbot = ?fbot" and wb: "wrap_long ?sbot = ?sbot"
    by (auto intro!: wrap_long_id simp: LONG_MIN_def LONG_MAX_def)
  from size small have wz: "wrap_long (?nbot - ?ntop) = ?nbot - ?ntop"
    by (intro wrap_long_id) (simp_all add: INT_MAX_def)
  from size small have bytes:
    "(nat ((?nbot - ?ntop) mod 2 ^ 64) * 8) mod 2 ^ 64 = nat (?nbot - ?ntop) * 8"
    by (simp add: INT_MAX_def mod_pos_pos_trivial nat_less_iff)
  from alloc bytes have ns: "(if ?reuse then Some old
       else malloc_longs malloc_ok (?nbot - ?ntop)) = Some ?init"
    by (auto simp: malloc_longs_def Let_def)
  have lm: "int (length mem) = ?fbot - ?ftop" using fl by simp
  have lo: "int (length old) = ?sbot - ?stop" using so by simp
  from len size small have sm: "int (length ?init) \<le> INT_MAX" by simp
  from lows have r1: "LONG_MIN \<le> ?ntop" by simp
  from len size highs have r2: "?ntop + int (length ?init) \<le> LONG_MAX + 1" by simp
  have t1: "?ntop \<le> ?ftop" and t2: "?ntop \<le> ?stop" by simp_all
  have src: "case ?src of
                Some a \<Rightarrow> a = old
              | None \<Rightarrow> ?ntop = ?stop \<and> length ?init = length old \<and>
                  (\<forall>j. 0 \<le> j \<and> j < length ?init \<longrightarrow> ?init ! j = old ! j)"
    by simp
  have bound: "0 \<le> length ?init" by simp
  from len size have li: "int (length ?init) = ?nbot - ?ntop" by simp
  from copy_loop_result[OF lm lo sm r1 r2 t1 t2 src bound] obtain r where
    r: "copy_loop 0 (?nbot - ?ntop) ?ntop ?ftop ?fbot mem ?stop ?sbot ?src ?init = Some r"
    and lr: "length r = length ?init"
    and nr: "\<forall>j<length ?init. r ! j =
               union_value ?ftop ?fbot mem ?stop ?sbot old (?ntop + int j)"
    unfolding li by auto
  have set: "SetStackFrame malloc_ok s (Some f) =
      Some (s\<lparr>stack_global := Some r, stack_size := ?nbot - ?ntop, stack_top := ?ntop\<rparr>)"
    by (simp only: SetStackFrame_def sg fm option.case prod.case Let_def wf wb mn mx wz ns r)
  from lr len size have l: "int (length r) = ?nbot - ?ntop" by simp
  have "r ! nat (a - ?ntop) = union_value ?ftop ?fbot mem ?stop ?sbot old a"
    if "?ntop \<le> a" "a < ?nbot" for a
  proof -
    from that len have "nat (a - ?ntop) < length ?init" by simp
    with nr len have "r ! nat (a - ?ntop) =
        union_value ?ftop ?fbot mem ?stop ?sbot old (?ntop + int (nat (a - ?ntop)))"
      by simp
    with that show ?thesis by simp
  qed
  with set l show ?thesis unfolding union_value_def by blast
qed

text \<open>C4 on the example: \<open>A = [10, 20)\<close> into the empty panel, then \<open>B = [15, 25)\<close>,
  gives \<open>[10, 25)\<close> with \<open>A\<close>'s values on \<open>[10, 15)\<close> and \<open>B\<close>'s on \<open>[15, 25)\<close>.\<close>

theorem stack_frame_union_witness:
  "SetStackFrame small_heap GDBStackPanel_new (Some frame_A) = Some panel_A \<and>
   SetStackFrame small_heap panel_A (Some frame_B) = Some panel_AB \<and>
   (\<exists>new. stack_global panel_AB = Some new \<and> length new = 15 \<and>
      new ! nat (10 - 10) = 1 \<and> new ! nat (14 - 10) = 5 \<and>
      new ! nat (15 - 10) = 100 \<and> new ! nat (24 - 10) = 109)"
proof -
  have sg: "stack_global panel_A = Some [1, 2, 3, 4, 5, 6, 7, 8, 9, 10]"
    and so: "int (length [1, 2, 3, 4, 5, 6, 7, 8, 9, 10 :: int]) = stack_size panel_A"
    and fm: "memory frame_B = Some [100, 101, 102, 103, 104, 105, 106, 107, 108, 109]"
    and fl: "int (length [100, 101, 102, 103, 104, 105, 106, 107, 108, 109 :: int]) =
        memory_length frame_B"
    and lows: "LONG_MIN \<le> stack_pointer frame_B" "LONG_MIN \<le> stack_top panel_A"
    and highs: "stack_pointer frame_B + memory_length frame_B \<le> LONG_MAX"
      "stack_top panel_A + stack_size panel_A \<le> LONG_MAX"
    and small: "max (stack_pointer frame_B + memory_length frame_B)
                  (stack_top panel_A + stack_size panel_A)
                 - min (stack_pointer frame_B) (stack_top panel_A) \<le> INT_MAX"
    and alloc: "min (stack_pointer frame_B) (stack_top panel_A) = stack_top panel_A \<and>
                max (stack_pointer frame_B + memory_length frame_B)
                  (stack_top panel_A + stack_size panel_A) =
                  stack_top panel_A + stack_size panel_A \<or>
                small_heap (nat (max (stack_pointer frame_B + memory_length frame_B)
                                  (stack_top panel_A + stack_size panel_A)
                                - min (stack_pointer frame_B) (stack_top panel_A)) * 8)"
    by (simp_all add: panel_A_def frame_B_def LONG_MIN_def LONG_MAX_def INT_MAX_def
        small_heap_def)
  from stack_frame_union[where malloc_ok = small_heap, OF sg so fm fl lows highs small alloc]
  obtain new where
    s: "SetStackFrame small_heap panel_A (Some frame_B) = Some (panel_A\<lparr>stack_global := Some new,
          stack_size := 15, stack_top := 10\<rparr>)"
    and l: "int (length new) = 15"
    and n: "\<forall>address. 10 \<le> address \<and> address < 25 \<longrightarrow>
         new ! nat (address - 10) =
           (if 15 \<le> address \<and> address < 25
            then [100, 101, 102, 103, 104, 105, 106, 107, 108, 109] ! nat (address - 15)
            else if 10 \<le> address \<and> address < 20
            then [1, 2, 3, 4, 5, 6, 7, 8, 9, 10] ! nat (address - 10)
            else 0)"
    by (auto simp: panel_A_def frame_B_def)
  from s merge_A_B have g: "stack_global panel_AB = Some new"
    by (simp add: panel_A_def panel_AB_def)
  from n[rule_format, of 10] n[rule_format, of 14] n[rule_format, of 15] n[rule_format, of 24]
  have "new ! nat (10 - 10) = 1 \<and> new ! nat (14 - 10) = 5 \<and>
      new ! nat (15 - 10) = 100 \<and> new ! nat (24 - 10) = 109"
    by (simp add: eval_nat_numeral)
  with g l merge_A_B show ?thesis by simp
qed

text \<open>
  C5: on a session fresh from the constructor \<^verbatim>\<open>is_running_program\<close> returns false
  and leaves the session as it was, so nothing was written to the child.
\<close>

theorem fresh_session_not_running:
  "is_running_program n (GDB_new p) = Some (False, GDB_new p)"
  by (simp add: is_running_program_def GDB_new_def)

text \<open>
  C6: executing a command on a live session sets the dirty flag. A status query that
  finds the flag set writes the status command once, drains, and returns whether the
  text just drained lacks \<^verbatim>\<open>not being run\<close>: the value is computed from the child's
  answer, stored, and the flag cleared. A query that finds the flag clear returns the
  stored value and changes nothing. So after one query that returned, every further
  query returns the same boolean and the same session (it writes nothing), whatever
  its fuel.
\<close>

theorem running_status_cached:
  "(is_alive g \<longrightarrow> running_program_flag (execute g (Some c))) \<and>
   (running_program_flag g \<and> is_running_program n g = Some (b, g') \<longrightarrow>
      (\<exists>g1 ob eb hit.
          read_until_prompt n (g\<lparr>process := pstream_write GDB_PROGRAM_STATUS (process g)\<rparr>)
            [] [] True = Some (g1, ob, eb, hit) \<and>
          b = (\<not> string_contains ob ''not being run'') \<and>
          g' = g1\<lparr>running_program := b, running_program_flag := False\<rparr>) \<and>
      stdin_log (process g') = stdin_log (process g) @ [GDB_PROGRAM_STATUS]) \<and>
   (\<not> running_program_flag g \<longrightarrow> is_running_program n g = Some (running_program g, g)) \<and>
   (is_running_program n g = Some (b, g') \<longrightarrow>
      \<not> running_program_flag g' \<and> running_program g' = b \<and>
      (\<forall>m. is_running_program m g' = Some (b, g')))"
proof (intro conjI impI)
  assume "is_alive g"
  then show "running_program_flag (execute g (Some c))"
    by (simp add: execute_def)
next
  assume a: "running_program_flag g \<and> is_running_program n g = Some (b, g')"
  then show "\<exists>g1 ob eb hit.
          read_until_prompt n (g\<lparr>process := pstream_write GDB_PROGRAM_STATUS (process g)\<rparr>)
            [] [] True = Some (g1, ob, eb, hit) \<and>
          b = (\<not> string_contains ob ''not being run'') \<and>
          g' = g1\<lparr>running_program := b, running_program_flag := False\<rparr>"
    using status_query_result by blast
  from a show "stdin_log (process g') = stdin_log (process g) @ [GDB_PROGRAM_STATUS]"
    using status_query_log by blast
next
  assume "\<not> running_program_flag g"
  then show "is_running_program n g = Some (running_program g, g)"
    by (simp add: is_running_program_def)
next
  assume r: "is_running_program n g = Some (b, g')"
  then have f: "\<not> running_program_flag g'" and b: "running_program g' = b"
    by (auto simp: is_running_program_def Let_def split: if_splits option.splits)
  from f show "\<not> running_program_flag g'" .
  from b show "running_program g' = b" .
  from f b show "\<forall>m. is_running_program m g' = Some (b, g')"
    by (simp add: is_running_program_def)
qed

text \<open>C6 on two children: after \<^verbatim>\<open>run\<close> the debugger-like child reports no program
  and the query returns false twice; the debugging child reports a running program and
  the query returns true, where the stored value before the query was false.\<close>

theorem running_status_cached_witness:
  "is_alive gdb0 \<and> running_program_flag (execute gdb0 (Some ''run'')) \<and>
   (\<exists>g'. is_running_program (Suc (Suc (Suc 0))) (execute gdb0 (Some ''run'')) = Some (False, g') \<and>
      \<not> running_program_flag g' \<and> is_running_program 0 g' = Some (False, g') \<and>
      stdin_log (process g') = [''run'', ''info program'']) \<and>
   \<not> running_program (execute gdb_debugging (Some ''run'')) \<and>
   (\<exists>g' g1 ob eb hit.
      is_running_program (Suc (Suc (Suc 0))) (execute gdb_debugging (Some ''run'')) =
        Some (True, g') \<and>
      read_until_prompt (Suc (Suc (Suc 0)))
        ((execute gdb_debugging (Some ''run''))
           \<lparr>process := pstream_write GDB_PROGRAM_STATUS
                         (process (execute gdb_debugging (Some ''run'')))\<rparr>)
        [] [] True = Some (g1, ob, eb, hit) \<and>
      \<not> string_contains ob ''not being run'' \<and>
      running_program g' \<and> is_running_program 0 g' = Some (True, g'))"
proof -
  have a: "is_alive gdb0" by (simp add: eval_defs gdb0_def gdb_like_def)
  obtain g' where
    r: "is_running_program (Suc (Suc (Suc 0))) (execute gdb0 (Some ''run'')) = Some (False, g')"
    using gdb0_status_after_run by blast
  have f: "running_program_flag (execute gdb0 (Some ''run''))"
    and l: "stdin_log (process (execute gdb0 (Some ''run''))) = [''run'']"
    by (simp_all add: eval_defs gdb0_def gdb_like_def)
  obtain h' where
    s: "is_running_program (Suc (Suc (Suc 0))) (execute gdb_debugging (Some ''run'')) =
          Some (True, h')"
    using gdb_debugging_status_after_run by blast
  have e: "running_program_flag (execute gdb_debugging (Some ''run''))"
    and st: "\<not> running_program (execute gdb_debugging (Some ''run''))"
    by (simp_all add: eval_defs gdb_debugging_def debugging_def)
  from running_status_cached[where g = gdb0 and c = "''run''" and n = 0 and b = False and g' = g']
    running_status_cached[where g = "execute gdb0 (Some ''run'')" and c = "''run''"
      and n = "Suc (Suc (Suc 0))" and b = False and g' = g']
    a r f l
  have 1: "is_alive gdb0 \<and> running_program_flag (execute gdb0 (Some ''run'')) \<and>
   (\<exists>g'. is_running_program (Suc (Suc (Suc 0))) (execute gdb0 (Some ''run'')) = Some (False, g') \<and>
      \<not> running_program_flag g' \<and> is_running_program 0 g' = Some (False, g') \<and>
      stdin_log (process g') = [''run'', ''info program''])"
    by (auto simp: GDB_PROGRAM_STATUS_def)
  from running_status_cached[where g = "execute gdb_debugging (Some ''run'')" and c = "''run''"
      and n = "Suc (Suc (Suc 0))" and b = True and g' = h'] s e
  have 2: "\<exists>g' g1 ob eb hit.
      is_running_program (Suc (Suc (Suc 0))) (execute gdb_debugging (Some ''run'')) =
        Some (True, g') \<and>
      read_until_prompt (Suc (Suc (Suc 0)))
        ((execute gdb_debugging (Some ''run''))
           \<lparr>process := pstream_write GDB_PROGRAM_STATUS
                         (process (execute gdb_debugging (Some ''run'')))\<rparr>)
        [] [] True = Some (g1, ob, eb, hit) \<and>
      \<not> string_contains ob ''not being run'' \<and>
      running_program g' \<and> is_running_program 0 g' = Some (True, g')"
    by auto
  from 1 st 2 show ?thesis by blast
qed

text \<open>
  C7: on a session that is not alive \<^verbatim>\<open>execute\<close> returns the session unchanged, and
  \<^verbatim>\<open>read_until_prompt\<close> returns at once, whatever its fuel, with the session and both
  streams unchanged and the prompt flag unset.
\<close>

theorem closed_session_noop:
  "\<not> is_alive g \<Longrightarrow>
     execute g line = g \<and> read_until_prompt n g ob eb trim = Some (g, ob, eb, False)"
  by (simp add: execute_def read_until_prompt_def read_until_prompt_loop_dead)

text \<open>C7 on a child that has exited with output still unread.\<close>

theorem closed_session_noop_witness:
  "\<not> is_alive dead_gdb \<and> execute dead_gdb (Some ''list'') = dead_gdb \<and>
   read_until_prompt 7 dead_gdb ''o'' ''e'' True = Some (dead_gdb, ''o'', ''e'', False)"
proof -
  have d: "\<not> is_alive dead_gdb"
    by (simp add: dead_gdb_def is_alive_def GDB_new_def scripted_pstream_def out_exited_def
        err_exited_def idle_child_def)
  from closed_session_noop[OF d, of "Some ''list''" 7 "''o''" "''e''" True] d
  show ?thesis by simp
qed

text \<open>
  C8: with the session alive and the input at its end, the loop runs one cycle and ends:
  it returns exactly when that cycle does; when it returns, no input is left, the lines
  written are one \<^verbatim>\<open>quit\<close> and the status query of the publish step, and the history
  is as before. Whether the session is alive afterwards is the child's doing. For a
  child that stays exited once exited: if the drain after \<^verbatim>\<open>quit\<close> ended without a
  prompt, the loop returns with the session not alive; and if the child exits when it
  receives \<^verbatim>\<open>quit\<close>, as the debugger does, the loop returns for every fuel with the
  session not alive.
\<close>

theorem console_eof_quits_once:
  assumes alive: "is_alive g"
  shows
  "(console_loop n [] g c = None \<longleftrightarrow>
      update_console_and_gui n (execute g (Some GDB_QUIT))
        (c\<lparr>cout := cout c @ GDB_QUIT @ [CHR 0x0A]\<rparr>) = None) \<and>
   (console_loop n [] g c = Some (g', c', rest) \<longrightarrow>
      rest = [] \<and>
      stdin_log (process g') = stdin_log (process g) @ [GDB_QUIT, GDB_PROGRAM_STATUS] \<and>
      history c' = history c \<and>
      (\<exists>g1 ob eb hit running.
          read_until_prompt n (execute g (Some GDB_QUIT)) (cout c @ GDB_QUIT @ [CHR 0x0A])
            (cerr c) True = Some (g1, ob, eb, hit) \<and>
          is_running_program n g1 = Some (running, g') \<and> cout c' = ob \<and> cerr c' = eb)) \<and>
   ((\<forall>l s. ex_out (process g) s \<or> ex_err (process g) s \<longrightarrow>
        ex_out (process g) (wr (process g) l s) \<or> ex_err (process g) (wr (process g) l s)) \<and>
    read_until_prompt n (execute g (Some GDB_QUIT)) (cout c @ GDB_QUIT @ [CHR 0x0A]) (cerr c)
      True = Some (g1, ob, eb, False) \<longrightarrow>
      (\<exists>g' c'. console_loop n [] g c = Some (g', c', []) \<and>
         stdin_log (process g') = stdin_log (process g) @ [GDB_QUIT, GDB_PROGRAM_STATUS] \<and>
         \<not> is_alive g' \<and> history c' = history c \<and> cout c' = ob \<and> cerr c' = eb \<and>
         event_queue c' =
           (if top_window c
            then event_queue c @ [CommandEvent gdbEVT_STATUS_BAR_UPDATE GDB_STATUS_RUNNING]
            else event_queue c))) \<and>
   ((\<forall>l s. ex_out (process g) s \<or> ex_err (process g) s \<longrightarrow>
        ex_out (process g) (wr (process g) l s) \<or> ex_err (process g) (wr (process g) l s)) \<and>
    (\<forall>s. ex_out (process g) (wr (process g) (GDB_QUIT @ [CHR 0x0A]) s) \<or>
         ex_err (process g) (wr (process g) (GDB_QUIT @ [CHR 0x0A]) s)) \<longrightarrow>
      (\<exists>g' c'. console_loop n [] g c = Some (g', c', []) \<and>
         stdin_log (process g') = stdin_log (process g) @ [GDB_QUIT, GDB_PROGRAM_STATUS] \<and>
         \<not> is_alive g' \<and> history c' = history c))"
proof -
  let ?q = "execute g (Some GDB_QUIT)"
  let ?c = "c\<lparr>cout := cout c @ GDB_QUIT @ [CHR 0x0A]\<rparr>"
  have step: "console_loop n [] g c =
      (case update_console_and_gui n ?q ?c of None \<Rightarrow> None | Some (g1, c1) \<Rightarrow> Some (g1, c1, []))"
    using alive by simp
  have A: "console_loop n [] g c = None \<longleftrightarrow> update_console_and_gui n ?q ?c = None"
    unfolding step by (simp split: option.splits)
  have B: "rest = [] \<and>
      stdin_log (process g') = stdin_log (process g) @ [GDB_QUIT, GDB_PROGRAM_STATUS] \<and>
      history c' = history c \<and>
      (\<exists>g1 ob eb hit running.
          read_until_prompt n ?q (cout c @ GDB_QUIT @ [CHR 0x0A]) (cerr c) True =
            Some (g1, ob, eb, hit) \<and>
          is_running_program n g1 = Some (running, g') \<and> cout c' = ob \<and> cerr c' = eb)"
    if r: "console_loop n [] g c = Some (g', c', rest)"
  proof -
    from r have u: "update_console_and_gui n ?q ?c = Some (g', c')" and e: "rest = []"
      unfolding step by (auto split: option.splits)
    from cycle_effect[OF alive u] have
      l: "stdin_log (process g') = stdin_log (process g) @ [GDB_QUIT, GDB_PROGRAM_STATUS]"
      and h: "history c' = history c"
      by simp_all
    from update_parts[OF u] obtain g1 ob eb hit running where
      "read_until_prompt n ?q (cout c @ GDB_QUIT @ [CHR 0x0A]) (cerr c) True =
            Some (g1, ob, eb, hit)"
      "is_running_program n g1 = Some (running, g')" "cout c' = ob" "cerr c' = eb"
      by (auto split: if_splits)
    with e l h show ?thesis by blast
  qed
  have C: "\<exists>g' c'. console_loop n [] g c = Some (g', c', []) \<and>
         stdin_log (process g') = stdin_log (process g) @ [GDB_QUIT, GDB_PROGRAM_STATUS] \<and>
         \<not> is_alive g' \<and> history c' = history c \<and> cout c' = ob \<and> cerr c' = eb \<and>
         event_queue c' =
           (if top_window c
            then event_queue c @ [CommandEvent gdbEVT_STATUS_BAR_UPDATE GDB_STATUS_RUNNING]
            else event_queue c)"
    if permanent: "\<forall>l s. ex_out (process g) s \<or> ex_err (process g) s \<longrightarrow>
        ex_out (process g) (wr (process g) l s) \<or> ex_err (process g) (wr (process g) l s)"
      and drain: "read_until_prompt n ?q (cout c @ GDB_QUIT @ [CHR 0x0A]) (cerr c) True =
        Some (g1, ob, eb, False)"
    for g1 ob eb
  proof -
    let ?w = "g1\<lparr>process := pstream_write GDB_PROGRAM_STATUS (process g1)\<rparr>"
    let ?g' = "?w\<lparr>running_program := True, running_program_flag := False\<rparr>"
    note q = execute_alive[OF alive, of GDB_QUIT]
    from drain have d: "read_until_prompt_loop n True ?q (cout c @ GDB_QUIT @ [CHR 0x0A]) (cerr c)
        False = Some (g1, ob, eb, False)"
      by (simp add: read_until_prompt_def)
    from read_until_prompt_loop_exit[OF d] have dead1: "\<not> is_alive g1" by simp
    from read_until_prompt_loop_keeps[OF d] q have k:
      "running_program_flag g1" "stdin_log (process g1) = stdin_log (process g) @ [GDB_QUIT]"
      "wr (process g1) = wr (process g)" "ex_out (process g1) = ex_out (process g)"
      "ex_err (process g1) = ex_err (process g)"
      by simp_all
    from dead1 k have "ex_out (process g) (child (process g1)) \<or>
        ex_err (process g) (child (process g1))"
      by (simp add: is_alive_def out_exited_def err_exited_def)
    with permanent have "ex_out (process g) (wr (process g) l (child (process g1))) \<or>
        ex_err (process g) (wr (process g) l (child (process g1)))" for l
      by blast
    with k have deadw: "\<not> is_alive ?w"
      by (simp add: is_alive_def out_exited_def err_exited_def pstream_write_def)
    then have "read_until_prompt n ?w [] [] True = Some (?w, [], [], False)"
      by (simp add: read_until_prompt_def read_until_prompt_loop_dead)
    with k have r: "is_running_program n g1 = Some (True, ?g')"
      by (simp add: is_running_program_def get_execution_output_def)
    have "is_alive ?g' = is_alive ?w" by (rule is_alive_process) simp
    with deadw have dead': "\<not> is_alive ?g'" by simp
    from k have l: "stdin_log (process ?g') =
        stdin_log (process g) @ [GDB_QUIT, GDB_PROGRAM_STATUS]"
      by (simp add: pstream_write_def)
    from alive drain r have "console_loop n [] g c =
        Some (?g', if top_window c
                   then c\<lparr>cout := ob, cerr := eb,
                          event_queue := event_queue c @
                            [CommandEvent gdbEVT_STATUS_BAR_UPDATE GDB_STATUS_RUNNING]\<rparr>
                   else c\<lparr>cout := ob, cerr := eb\<rparr>, [])"
      by (simp add: update_console_and_gui_def Let_def)
    with dead' l show ?thesis by auto
  qed
  have D: "\<exists>g' c'. console_loop n [] g c = Some (g', c', []) \<and>
         stdin_log (process g') = stdin_log (process g) @ [GDB_QUIT, GDB_PROGRAM_STATUS] \<and>
         \<not> is_alive g' \<and> history c' = history c"
    if permanent: "\<forall>l s. ex_out (process g) s \<or> ex_err (process g) s \<longrightarrow>
        ex_out (process g) (wr (process g) l s) \<or> ex_err (process g) (wr (process g) l s)"
      and quits: "\<forall>s. ex_out (process g) (wr (process g) (GDB_QUIT @ [CHR 0x0A]) s) \<or>
         ex_err (process g) (wr (process g) (GDB_QUIT @ [CHR 0x0A]) s)"
  proof -
    from alive quits have "\<not> is_alive ?q"
      by (simp add: execute_def is_alive_def out_exited_def err_exited_def pstream_write_def)
    then have "read_until_prompt n ?q (cout c @ GDB_QUIT @ [CHR 0x0A]) (cerr c) True =
        Some (?q, cout c @ GDB_QUIT @ [CHR 0x0A], cerr c, False)"
      by (simp add: read_until_prompt_def read_until_prompt_loop_dead)
    from C[OF permanent this] show ?thesis by blast
  qed
  from A B C D show ?thesis by blast
qed

text \<open>C8 on the debugger-like child, which exits on \<^verbatim>\<open>quit\<close>.\<close>

theorem console_eof_quits_once_witness:
  "is_alive gdb0 \<and>
   (\<exists>g' c'. console_loop 0 [] gdb0 console0 = Some (g', c', []) \<and>
      stdin_log (process g') = [GDB_QUIT, GDB_PROGRAM_STATUS] \<and> \<not> is_alive g')"
proof -
  have a: "is_alive gdb0" by (simp add: eval_defs gdb0_def gdb_like_def)
  have p: "\<forall>l s. ex_out (process gdb0) s \<or> ex_err (process gdb0) s \<longrightarrow>
        ex_out (process gdb0) (wr (process gdb0) l s) \<or> ex_err (process gdb0) (wr (process gdb0) l s)"
    by (simp add: gdb0_def GDB_new_def scripted_pstream_def gdb_like_def)
  have e: "\<forall>s. ex_out (process gdb0) (wr (process gdb0) (GDB_QUIT @ [CHR 0x0A]) s) \<or>
         ex_err (process gdb0) (wr (process gdb0) (GDB_QUIT @ [CHR 0x0A]) s)"
    by (simp add: gdb0_def GDB_new_def scripted_pstream_def gdb_like_def)
  have l: "stdin_log (process gdb0) = []"
    by (simp add: eval_defs gdb0_def gdb_like_def)
  have "\<exists>g' c'. console_loop 0 [] gdb0 console0 = Some (g', c', []) \<and>
         stdin_log (process g') = stdin_log (process gdb0) @ [GDB_QUIT, GDB_PROGRAM_STATUS] \<and>
         \<not> is_alive g' \<and> history c' = history console0"
    using console_eof_quits_once[OF a, where n = 0 and c = console0] p e by blast
  with a l show ?thesis by auto
qed

text \<open>The loop itself never waits for the exit: a child that, unlike the debugger,
  answered \<^verbatim>\<open>quit\<close> with a prompt would still be alive when the loop has ended.\<close>

lemma quit_answered_with_prompt_stays_alive:
  "\<exists>g' c'. open_console (Suc (Suc (Suc 0))) stubborn_pstream [] console0 = Some (g', c', []) \<and>
      stdin_log (process g') = [GDB_QUIT, GDB_PROGRAM_STATUS] \<and> is_alive g'"
  by (simp add: all_defs stubborn_pstream_def stubborn_def console0_def)




text \<open>
  C10: with a null command pointer \<^verbatim>\<open>execute\<close> changes nothing, alive or not: the
  stream (so also the log of written lines) and both flags are as before.
\<close>

theorem execute_null_noop: "execute g None = g"
  by (simp add: execute_def)

end
